theory Spec2Isabelle
  imports Main "HOL-Library.Sublist"
begin

section \<open>ECMAScript strings\<close>

text \<open>
  A string of the program is an Isabelle \<^typ>\<open>string\<close>, one \<^typ>\<open>char\<close> per code unit: the
  strings of the embedding are those whose code units lie in \<open>U+0000\<close> to \<open>U+00FF\<close>, and a
  \<^typ>\<open>char\<close> is read as the code point of that number. On these the functions below are
  the ones of ECMAScript: the class \<^verbatim>\<open>\w\<close> is the ASCII letters, digits and underscore;
  the class \<^verbatim>\<open>\s\<close>, which is also what \<^verbatim>\<open>trim\<close> removes, is tab, line feed, vertical tab,
  form feed, carriage return, space and the no-break space \<open>U+00A0\<close>; lower case moves
  \<open>A\<close> to \<open>Z\<close> and the letters \<open>U+00C0\<close> to \<open>U+00DE\<close> other than the multiplication sign
  \<open>U+00D7\<close>, each by 32; upper case moves \<open>a\<close> to \<open>z\<close> and the letters \<open>U+00E0\<close> to \<open>U+00FE\<close>
  other than the division sign \<open>U+00F7\<close> back by 32, turns the sharp s \<open>U+00DF\<close> into
  \<open>SS\<close>, and takes \<open>U+00FF\<close> and the micro sign \<open>U+00B5\<close> to letters above \<open>U+00FF\<close>.
\<close>

definition upperLetters :: string where
  "upperLetters = ''ABCDEFGHIJKLMNOPQRSTUVWXYZ''"

definition lowerLetters :: string where
  "lowerLetters = ''abcdefghijklmnopqrstuvwxyz''"

definition decimalDigits :: string where
  "decimalDigits = ''0123456789''"

text \<open>The capital and the small letters of \<open>U+0080\<close> to \<open>U+00FF\<close> that have the other case there.\<close>

definition isLatinUpper :: "char \<Rightarrow> bool" where
  "isLatinUpper c \<longleftrightarrow>
     0xC0 \<le> (of_char c :: nat) \<and> (of_char c :: nat) \<le> 0xDE \<and> (of_char c :: nat) \<noteq> 0xD7"

definition isLatinLower :: "char \<Rightarrow> bool" where
  "isLatinLower c \<longleftrightarrow>
     0xE0 \<le> (of_char c :: nat) \<and> (of_char c :: nat) \<le> 0xFE \<and> (of_char c :: nat) \<noteq> 0xF7"

text \<open>\<^verbatim>\<open>toLowerCase\<close> on one code unit; the result is again one code unit.\<close>

definition toLowerCaseChar :: "char \<Rightarrow> char" where
  "toLowerCaseChar c =
     (case map_of (zip upperLetters lowerLetters) c of
        Some l \<Rightarrow> l
      | None \<Rightarrow> if isLatinUpper c then char_of ((of_char c :: nat) + 32) else c)"

text \<open>
  \<^verbatim>\<open>toUpperCase\<close> on the string of one code unit: the string it returns, and \<open>None\<close> when
  that string has a code unit above \<open>U+00FF\<close>, so that it is no string of the embedding
  and differs from every one of them.
\<close>

definition toUpperCaseUnit :: "char \<Rightarrow> string option" where
  "toUpperCaseUnit c =
     (case map_of (zip lowerLetters upperLetters) c of
        Some u \<Rightarrow> Some [u]
      | None \<Rightarrow>
          if isLatinLower c then Some [char_of ((of_char c :: nat) - 32)]
          else if c = CHR 0xDF then Some ''SS''
          else if c = CHR 0xFF \<or> c = CHR 0xB5 then None
          else Some [c])"

definition toLowerCase :: "string \<Rightarrow> string" where
  "toLowerCase s = map toLowerCaseChar s"

text \<open>The character class \<^verbatim>\<open>\w\<close>.\<close>

definition isWordChar :: "char \<Rightarrow> bool" where
  "isWordChar c \<longleftrightarrow>
     c \<in> set upperLetters \<or> c \<in> set lowerLetters \<or> c \<in> set decimalDigits \<or> c = CHR ''_''"

text \<open>The character class \<^verbatim>\<open>\s\<close>.\<close>

definition isWhitespace :: "char \<Rightarrow> bool" where
  "isWhitespace c \<longleftrightarrow>
     c \<in> {CHR 0x09, CHR 0x0A, CHR 0x0B, CHR 0x0C, CHR 0x0D, CHR '' '', CHR 0xA0}"

text \<open>\<^verbatim>\<open>s.replace(/[^\w\s]/g, ' ')\<close>\<close>

definition replaceNonWord :: "string \<Rightarrow> string" where
  "replaceNonWord s = map (\<lambda>c. if isWordChar c \<or> isWhitespace c then c else CHR '' '') s"

text \<open>
  \<^verbatim>\<open>s.split(sep)\<close> for a separator of one character: every occurrence of the separator
  ends a piece, so a string with \<open>n\<close> separators has \<open>n + 1\<close> pieces, some of them empty.
\<close>

fun splitAt :: "char \<Rightarrow> string \<Rightarrow> string \<Rightarrow> string list" where
  "splitAt sep cur [] = [cur]"
| "splitAt sep cur (c # cs) =
     (if c = sep then cur # splitAt sep [] cs else splitAt sep (cur @ [c]) cs)"

definition splitChar :: "char \<Rightarrow> string \<Rightarrow> string list" where
  "splitChar sep s = splitAt sep [] s"

text \<open>
  \<^verbatim>\<open>s.split(/\s+/)\<close>: a maximal run of whitespace is one separator. A run at the start or
  at the end of the string leaves an empty piece there.
\<close>

function splitRuns :: "string \<Rightarrow> string \<Rightarrow> string list" where
  "splitRuns cur [] = [cur]"
| "splitRuns cur (c # cs) =
     (if isWhitespace c then cur # splitRuns [] (dropWhile isWhitespace cs)
      else splitRuns (cur @ [c]) cs)"
  by pat_completeness auto
termination
  by (relation "measure (\<lambda>(cur, s). length s)")
     (auto simp: less_Suc_eq_le length_dropWhile_le)

definition splitWhitespace :: "string \<Rightarrow> string list" where
  "splitWhitespace s = splitRuns [] s"

text \<open>\<^verbatim>\<open>s.includes(k)\<close>: \<open>k\<close> occurs in \<open>s\<close> as a contiguous run.\<close>

fun includesStr :: "string \<Rightarrow> string \<Rightarrow> bool" where
  "includesStr [] k \<longleftrightarrow> k = []"
| "includesStr (c # cs) k \<longleftrightarrow> prefix k (c # cs) \<or> includesStr cs k"

text \<open>\<^verbatim>\<open>xs.join(sep)\<close>\<close>

fun join :: "string \<Rightarrow> string list \<Rightarrow> string" where
  "join sep [] = []"
| "join sep [x] = x"
| "join sep (x # y # ys) = x @ sep @ join sep (y # ys)"

text \<open>The decimal text of a natural number, as a template literal prints an array index.\<close>

fun showNat :: "nat \<Rightarrow> string" where
  "showNat n =
     (if n < 10 then [decimalDigits ! n]
      else showNat (n div 10) @ [decimalDigits ! (n mod 10)])"

section \<open>Spreadsheet data\<close>

text \<open>
  A cell of a parsed sheet is a string, a number, a boolean or null. A finite number is held
  as its decimal text, which is what both \<^verbatim>\<open>JSON.stringify\<close> and a template literal
  print for it. A row is an object: its entries in property order. The document data is
  an object from sheet names to arrays of rows: its entries in property order.
\<close>

datatype cell = Str string | Num string | Bool bool | Null

type_synonym row = "(string \<times> cell) list"

type_synonym documentData = "(string \<times> row list) list"

text \<open>\<^verbatim>\<open>`${value}`\<close>\<close>

fun cellToString :: "cell \<Rightarrow> string" where
  "cellToString (Str s) = s"
| "cellToString (Num t) = t"
| "cellToString (Bool b) = (if b then ''true'' else ''false'')"
| "cellToString Null = ''null''"

subsection \<open>\<^verbatim>\<open>JSON.stringify\<close>\<close>

definition hexDigits :: string where
  "hexDigits = ''0123456789abcdef''"

definition backslash :: char where
  "backslash = CHR 0x5C"

definition dquote :: char where
  "dquote = CHR 0x22"

text \<open>
  Inside a JSON string the double quote, the backslash and the control characters are
  escaped; every other character stands for itself.
\<close>

definition escapeChar :: "char \<Rightarrow> string" where
  "escapeChar c =
     (if c = dquote then [backslash, dquote]
      else if c = backslash then [backslash, backslash]
      else if c = CHR 0x08 then [backslash, CHR ''b'']
      else if c = CHR 0x09 then [backslash, CHR ''t'']
      else if c = CHR 0x0A then [backslash, CHR ''n'']
      else if c = CHR 0x0C then [backslash, CHR ''f'']
      else if c = CHR 0x0D then [backslash, CHR ''r'']
      else if (of_char c :: nat) < 32 then
        [backslash, CHR ''u'', CHR ''0'', CHR ''0'',
         hexDigits ! ((of_char c :: nat) div 16), hexDigits ! ((of_char c :: nat) mod 16)]
      else [c])"

definition quoteJSON :: "string \<Rightarrow> string" where
  "quoteJSON s = [dquote] @ concat (map escapeChar s) @ [dquote]"

fun cellToJSON :: "cell \<Rightarrow> string" where
  "cellToJSON (Str s) = quoteJSON s"
| "cellToJSON (Num t) = t"
| "cellToJSON (Bool b) = (if b then ''true'' else ''false'')"
| "cellToJSON Null = ''null''"

definition JSON_stringify :: "row \<Rightarrow> string" where
  "JSON_stringify r =
     ''{'' @ join '','' (map (\<lambda>(key, value). quoteJSON key @ '':'' @ cellToJSON value) r) @ ''}''"

section \<open>The chat component: \<^verbatim>\<open>findRelevantContent\<close>\<close>

definition stopWords :: "string list" where
  "stopWords =
     [''a'', ''an'', ''the'', ''and'', ''or'', ''but'', ''is'', ''are'', ''was'', ''were'',
      ''of'', ''in'', ''to'', ''for'', ''with'', ''about'', ''by'', ''at'', ''on'']"

text \<open>The keywords of a query: lower case, punctuation blanked, split at every space.\<close>

definition keywordsOf :: "string \<Rightarrow> string list" where
  "keywordsOf query =
     filter (\<lambda>word. length word > 2 \<and> word \<notin> set stopWords)
       (splitChar (CHR '' '') (replaceNonWord (toLowerCase query)))"

text \<open>\<^verbatim>\<open>Object.entries(row).map(([key, value]) => `${key}: ${value}`).join(', ')\<close>\<close>

definition formatRow :: "row \<Rightarrow> string" where
  "formatRow r = join '', '' (map (\<lambda>(key, value). key @ '': '' @ cellToString value) r)"

definition fromSnippet :: "string \<Rightarrow> nat \<Rightarrow> row \<Rightarrow> string" where
  "fromSnippet sheetName rowIndex r =
     ''[From sheet '' @ [dquote] @ sheetName @ [dquote] @ '', row '' @ showNat (rowIndex + 1)
       @ '']: '' @ formatRow r"

definition sampleSnippet :: "string \<Rightarrow> row \<Rightarrow> string" where
  "sampleSnippet sheetName r =
     ''[Sample from sheet '' @ [dquote] @ sheetName @ [dquote] @ '']: '' @ formatRow r"

text \<open>The keywords that occur in the lower-cased JSON text of the row.\<close>

definition rowMatches :: "string list \<Rightarrow> row \<Rightarrow> string list" where
  "rowMatches kws r =
     (let rowStr = toLowerCase (JSON_stringify r)
      in filter (\<lambda>keyword. includesStr rowStr keyword) kws)"

text \<open>
  The inner \<^verbatim>\<open>rows.forEach((row, rowIndex) => ...)\<close>: the rows in order, the index counted
  from 0, a snippet pushed on \<open>relevantContent\<close> for each row with a match.
\<close>

fun scanRows :: "string list \<Rightarrow> string \<Rightarrow> row list \<Rightarrow> nat \<Rightarrow> string list \<Rightarrow> string list" where
  "scanRows kws sheetName [] rowIndex relevantContent = relevantContent"
| "scanRows kws sheetName (r # rows) rowIndex relevantContent =
     scanRows kws sheetName rows (rowIndex + 1)
       (if length (rowMatches kws r) > 0
        then relevantContent @ [fromSnippet sheetName rowIndex r]
        else relevantContent)"

text \<open>The outer \<^verbatim>\<open>Object.entries(documentData).forEach(...)\<close>.\<close>

fun scanSheets :: "string list \<Rightarrow> documentData \<Rightarrow> string list \<Rightarrow> string list" where
  "scanSheets kws [] relevantContent = relevantContent"
| "scanSheets kws ((sheetName, rows) # sheets) relevantContent =
     scanSheets kws sheets (scanRows kws sheetName rows 0 relevantContent)"

text \<open>The second loop: the first row of every sheet that has a row.\<close>

fun sampleSheets :: "documentData \<Rightarrow> string list \<Rightarrow> string list" where
  "sampleSheets [] relevantContent = relevantContent"
| "sampleSheets ((sheetName, rows) # sheets) relevantContent =
     sampleSheets sheets
       (case rows of
          [] \<Rightarrow> relevantContent
        | sampleRow # _ \<Rightarrow> relevantContent @ [sampleSnippet sheetName sampleRow])"

text \<open>What the function writes on the console.\<close>

datatype logEntry =
    SearchingFor "string list"
  | Truncating nat
  | NoExactMatches

type_synonym console = "logEntry list"

text \<open>
  The function reads the query and the document data of the component, writes on the
  console, and returns the context.
\<close>

definition findRelevantContent :: "string \<Rightarrow> documentData \<Rightarrow> console \<Rightarrow> string list \<times> console" where
  "findRelevantContent query documentData con =
     (let kws = keywordsOf query;
          con1 = con @ [SearchingFor kws];
          relevantContent = scanSheets kws documentData []
      in if length relevantContent > 20
         then (take 20 relevantContent, con1 @ [Truncating (length relevantContent)])
         else if length relevantContent = 0
         then (sampleSheets documentData relevantContent, con1 @ [NoExactMatches])
         else (relevantContent, con1))"

section \<open>The selection, stated on lists\<close>

text \<open>
  The snippets of the matching rows of one sheet, in row order; \<open>start\<close> is the index of
  the first row.
\<close>

definition sheetMatches :: "string list \<Rightarrow> string \<Rightarrow> row list \<Rightarrow> nat \<Rightarrow> string list" where
  "sheetMatches kws sheetName rows start =
     map (\<lambda>(rowIndex, r). fromSnippet sheetName rowIndex r)
       (filter (\<lambda>(rowIndex, r). rowMatches kws r \<noteq> []) (enumerate start rows))"

text \<open>The snippets of all matching rows: sheet after sheet, and row after row within a sheet.\<close>

definition allMatches :: "string list \<Rightarrow> documentData \<Rightarrow> string list" where
  "allMatches kws documentData =
     concat (map (\<lambda>(sheetName, rows). sheetMatches kws sheetName rows 0) documentData)"

text \<open>The sample: one snippet for each sheet that has a row, made from its first row.\<close>

definition sampleFallback :: "documentData \<Rightarrow> string list" where
  "sampleFallback documentData =
     concat (map (\<lambda>(sheetName, rows). case rows of [] \<Rightarrow> [] | r # _ \<Rightarrow> [sampleSnippet sheetName r])
       documentData)"

definition nonEmptySheets :: "documentData \<Rightarrow> documentData" where
  "nonEmptySheets documentData = filter (\<lambda>(sheetName, rows). rows \<noteq> []) documentData"

text \<open>
  The keywords as the specification words them: the blanked lower-case query is split at
  whitespace.
\<close>

definition keywordsPerSpec :: "string \<Rightarrow> string list" where
  "keywordsPerSpec query =
     filter (\<lambda>word. length word > 2 \<and> word \<notin> set stopWords)
       (splitWhitespace (replaceNonWord (toLowerCase query)))"

section \<open>The search service: \<^verbatim>\<open>extractKeywords\<close>\<close>

definition searchStopWords :: "string list" where
  "searchStopWords =
     [''a'', ''about'', ''above'', ''after'', ''again'', ''against'', ''all'', ''am'', ''an'', ''and'',
      ''any'', ''are'', ''as'', ''at'', ''be'', ''because'', ''been'', ''before'', ''being'', ''below'',
      ''between'', ''both'', ''but'', ''by'', ''can'', ''did'', ''do'', ''does'', ''doing'', ''don'',
      ''down'', ''during'', ''each'', ''few'', ''for'', ''from'', ''further'', ''had'', ''has'', ''have'',
      ''having'', ''he'', ''her'', ''here'', ''hers'', ''herself'', ''him'', ''himself'', ''his'',
      ''how'', ''i'', ''if'', ''in'', ''into'', ''is'', ''it'', ''its'', ''itself'', ''just'', ''me'',
      ''more'', ''most'', ''my'', ''myself'', ''no'', ''nor'', ''not'', ''now'', ''of'', ''off'', ''on'',
      ''once'', ''only'', ''or'', ''other'', ''our'', ''ours'', ''ourselves'', ''out'', ''over'', ''own'',
      ''same'', ''she'', ''should'', ''so'', ''some'', ''such'', ''than'', ''that'', ''the'', ''their'',
      ''theirs'', ''them'', ''themselves'', ''then'', ''there'', ''these'', ''they'', ''this'', ''those'',
      ''through'', ''to'', ''too'', ''under'', ''until'', ''up'', ''very'', ''was'', ''we'', ''were'',
      ''what'', ''when'', ''where'', ''which'', ''while'', ''who'', ''whom'', ''why'', ''will'', ''with'',
      ''would'', ''you'', ''your'', ''yours'', ''yourself'', ''yourselves'', ''tell'', ''me'', ''give'',
      ''information'', ''explain'', ''show'', ''find'', ''search'', ''look'']"

text \<open>The \<open>tokens\<close> of the query: lower case, punctuation blanked, split at runs of whitespace.\<close>

definition searchTokens :: "string \<Rightarrow> string list" where
  "searchTokens query =
     filter (\<lambda>word. length word > 1 \<and> word \<notin> set searchStopWords)
       (splitWhitespace (replaceNonWord (toLowerCase query)))"

text \<open>
  The two loops that push the phrases of two and of three adjacent tokens, \<open>i\<close> counting
  from 0 while \<^verbatim>\<open>i < tokens.length - 1\<close>, or \<^verbatim>\<open>- 2\<close>: a difference of integers, negative for
  a short list.
\<close>

function twoWordPhrases :: "string list \<Rightarrow> nat \<Rightarrow> string list \<Rightarrow> string list" where
  "twoWordPhrases tokens i phrases =
     (if int i < int (length tokens) - 1
      then twoWordPhrases tokens (i + 1) (phrases @ [tokens ! i @ '' '' @ tokens ! (i + 1)])
      else phrases)"
  by pat_completeness auto
termination
  by (relation "measure (\<lambda>(tokens, i, phrases). length tokens - i)") auto

function threeWordPhrases :: "string list \<Rightarrow> nat \<Rightarrow> string list \<Rightarrow> string list" where
  "threeWordPhrases tokens i phrases =
     (if int i < int (length tokens) - 2
      then threeWordPhrases tokens (i + 1)
             (phrases @ [tokens ! i @ '' '' @ tokens ! (i + 1) @ '' '' @ tokens ! (i + 2)])
      else phrases)"
  by pat_completeness auto
termination
  by (relation "measure (\<lambda>(tokens, i, phrases). length tokens - i)") auto

text \<open>
  \<^verbatim>\<open>Array.from(new Set(xs))\<close>: a set of the program keeps its elements in the order of their
  first insertion.
\<close>

definition setAdd :: "string list \<Rightarrow> string \<Rightarrow> string list" where
  "setAdd s x = (if x \<in> set s then s else s @ [x])"

definition arrayFromSet :: "string list \<Rightarrow> string list" where
  "arrayFromSet xs = fold (\<lambda>x s. setAdd s x) xs []"

definition extractKeywords :: "string \<Rightarrow> string list" where
  "extractKeywords query =
     (let tokens = searchTokens query;
          phrases = [] @ tokens;
          phrases = twoWordPhrases tokens 0 phrases;
          phrases = threeWordPhrases tokens 0 phrases
      in arrayFromSet phrases)"

section \<open>The language service\<close>

text \<open>
  A document of a key-phrase request. The component builds it with the properties in the
  order \<open>id\<close>, \<open>language\<close>, \<open>text\<close>, which is the order \<^verbatim>\<open>JSON.stringify\<close> prints them in.
\<close>

record document =
  doc_id :: string
  doc_language :: string
  doc_text :: string

text \<open>\<^verbatim>\<open>s.trim()\<close>\<close>

definition trim :: "string \<Rightarrow> string" where
  "trim s = rev (dropWhile isWhitespace (rev (dropWhile isWhitespace s)))"

definition documentJSON :: "document \<Rightarrow> string" where
  "documentJSON d =
     ''{'' @ quoteJSON ''id'' @ '':'' @ quoteJSON (doc_id d) @ '','' @
       quoteJSON ''language'' @ '':'' @ quoteJSON (doc_language d) @ '','' @
       quoteJSON ''text'' @ '':'' @ quoteJSON (doc_text d) @ ''}''"

definition documentsJSON :: "document list \<Rightarrow> string" where
  "documentsJSON ds = ''['' @ join '','' (map documentJSON ds) @ '']''"

text \<open>The argument of \<^verbatim>\<open>extractKeyPhrases\<close>: a string or an array of documents.\<close>

datatype keyPhraseInput = Text string | Documents "document list"

subsection \<open>\<^verbatim>\<open>getMockKeyPhrases\<close>\<close>

text \<open>The characters that \<^verbatim>\<open>word.replace(/[.,\/#!$%\^&\*;:{}=\-_`~()]/g, "")\<close> removes.\<close>

definition punctuation :: string where
  "punctuation = ''.,/#!$%^&*;:{}=-_`~()''"

definition cleanWordOf :: "string \<Rightarrow> string" where
  "cleanWordOf word = filter (\<lambda>c. c \<notin> set punctuation) word"

definition importantWords :: "string list" where
  "importantWords = [''important'', ''significant'', ''key'', ''critical'', ''major'']"

text \<open>
  The body of the first \<^verbatim>\<open>words.forEach((word, i) => ...)\<close>. The set \<open>keyPhrases\<close> is held as
  the list of its elements in insertion order. The first character of \<open>cleanWord\<close> is read
  only when the word has more than 3 characters.
\<close>

definition markWord :: "string list \<Rightarrow> nat \<times> string \<Rightarrow> string list \<Rightarrow> string list" where
  "markWord words = (\<lambda>(i, word) keyPhrases.
     (let cleanWord = cleanWordOf word;
          keyPhrases =
            (if i > 0 \<and> length cleanWord > 3 \<and>
                (case cleanWord of
                   c # _ \<Rightarrow> Some [c] = toUpperCaseUnit c \<and> c \<noteq> toLowerCaseChar c
                 | [] \<Rightarrow> False)
             then setAdd keyPhrases cleanWord else keyPhrases)
      in if i > 0 \<and> toLowerCase (words ! (i - 1)) \<in> set importantWords
         then setAdd keyPhrases cleanWord else keyPhrases))"

text \<open>The body of the second loop, run when the first one found nothing.\<close>

definition markLongWord :: "string \<Rightarrow> string list \<Rightarrow> string list" where
  "markLongWord word keyPhrases =
     (let cleanWord = cleanWordOf word
      in if length cleanWord > 6 then setAdd keyPhrases cleanWord else keyPhrases)"

definition getMockKeyPhrases :: "string \<Rightarrow> string list" where
  "getMockKeyPhrases text =
     (let words = splitWhitespace text;
          keyPhrases = fold (markWord words) (enumerate 0 words) [];
          keyPhrases =
            (if length keyPhrases = 0 then fold markLongWord words keyPhrases else keyPhrases)
      in take 10 keyPhrases)"

subsection \<open>\<^verbatim>\<open>extractKeyPhrases\<close>\<close>

text \<open>
  The text-analytics client is outside the program. A call of
  \<^verbatim>\<open>client.analyze("KeyPhraseExtraction", documents)\<close> either throws or returns one result for
  each document, and a result carries an error, or key phrases, or neither. The client is
  any function of the documents it is sent; the documents of two batches of a sheet differ
  in their \<open>id\<close>, so the client may fail on one batch and answer the next. The service
  object holds the client and the flag \<open>hasCredentials\<close>. What the service writes on the
  console is left out.
\<close>

datatype exception = Exception string

record analyzeResult =
  result_error :: "string option"
  result_keyPhrases :: "string list option"

record AzureLanguageService =
  hasCredentials :: bool
  analyze :: "document list \<Rightarrow> exception + analyzeResult list"

text \<open>The loop \<^verbatim>\<open>for (const result of results)\<close>.\<close>

fun collectKeyPhrases :: "analyzeResult list \<Rightarrow> string list \<Rightarrow> string list" where
  "collectKeyPhrases [] keyPhrases = keyPhrases"
| "collectKeyPhrases (result # results) keyPhrases =
     collectKeyPhrases results
       (case (result_error result, result_keyPhrases result) of
          (None, Some phrases) \<Rightarrow> keyPhrases @ phrases
        | _ \<Rightarrow> keyPhrases)"

text \<open>\<^verbatim>\<open>documents.filter(doc => doc.text && doc.text.trim().length > 0)\<close>\<close>

definition validDocumentsOf :: "document list \<Rightarrow> document list" where
  "validDocumentsOf documents =
     filter (\<lambda>doc. doc_text doc \<noteq> [] \<and> length (trim (doc_text doc)) > 0) documents"

text \<open>The text the mock is given: the string itself, or the JSON text of the documents.\<close>

definition inputText :: "keyPhraseInput \<Rightarrow> string" where
  "inputText input = (case input of Text s \<Rightarrow> s | Documents ds \<Rightarrow> documentsJSON ds)"

text \<open>
  The \<^verbatim>\<open>try\<close> block: \<open>Inl\<close> is an exception thrown in it, and the only call that can throw
  is the client's.
\<close>

definition extractKeyPhrasesTry :: "AzureLanguageService \<Rightarrow> keyPhraseInput \<Rightarrow> exception + string list" where
  "extractKeyPhrasesTry svc input =
     (if \<not> hasCredentials svc then Inr (getMockKeyPhrases (inputText input))
      else
        let documents =
              (case input of
                 Documents ds \<Rightarrow> ds
               | Text s \<Rightarrow> [\<lparr>doc_id = ''1'', doc_language = ''en'', doc_text = s\<rparr>]);
            validDocuments = validDocumentsOf documents
        in if length validDocuments = 0 then Inr []
           else (case analyze svc validDocuments of
                   Inl thrown \<Rightarrow> Inl thrown
                 | Inr results \<Rightarrow> Inr (collectKeyPhrases results [])))"

text \<open>
  The whole function, with its \<^verbatim>\<open>catch\<close>. The result is the settled promise: \<open>Inr\<close> the
  value it resolves to, \<open>Inl\<close> the exception it rejects with.
\<close>

definition extractKeyPhrases :: "AzureLanguageService \<Rightarrow> keyPhraseInput \<Rightarrow> exception + string list" where
  "extractKeyPhrases svc input =
     (case extractKeyPhrasesTry svc input of
        Inr phrases \<Rightarrow> Inr phrases
      | Inl thrown \<Rightarrow> Inr (getMockKeyPhrases (inputText input)))"

section \<open>The key-phrase component: the batches of a sheet\<close>

definition batchSize :: nat where
  "batchSize = 10"

text \<open>
  \<^verbatim>\<open>row[col]\<close> reads a property of the row, its own or one it inherits. A row is a plain
  object, and what such an object inherits, under names like \<open>constructor\<close> or \<open>toString\<close>,
  is the same for every row and is never undefined or null; \<open>inherited\<close> gives, for a
  name, the string that \<^verbatim>\<open>String\<close> makes of the inherited value, and \<open>None\<close> for a name
  under which nothing is inherited. The text depends on the engine, so \<open>inherited\<close> is a
  parameter.
\<close>

type_synonym inheritedText = "string \<Rightarrow> string option"

text \<open>
  \<^verbatim>\<open>value !== undefined && value !== null ? String(value) : ''\<close> for \<^verbatim>\<open>value = row[col]\<close>.
\<close>

definition columnText :: "inheritedText \<Rightarrow> row \<Rightarrow> string \<Rightarrow> string" where
  "columnText inherited r col =
     (case map_of r col of
        Some Null \<Rightarrow> []
      | Some v \<Rightarrow> cellToString v
      | None \<Rightarrow> (case inherited col of None \<Rightarrow> [] | Some t \<Rightarrow> t))"

text \<open>
  The text of a row: the texts of the chosen columns, without the blank ones, joined by a
  full stop and a space.
\<close>

definition rowText :: "inheritedText \<Rightarrow> string list \<Rightarrow> row \<Rightarrow> string" where
  "rowText inherited columnsToUse r =
     join ''. '' (filter (\<lambda>t. trim t \<noteq> []) (map (columnText inherited r) columnsToUse))"

text \<open>
  The documents of the batch that starts at row \<open>i\<close>: \<^verbatim>\<open>sheetData.slice(i, i + batchSize)\<close>,
  one document for each row, without the documents whose text is empty.
\<close>

definition batchDocuments :: "inheritedText \<Rightarrow> string list \<Rightarrow> row list \<Rightarrow> nat \<Rightarrow> document list" where
  "batchDocuments inherited columnsToUse sheetData i =
     (let batch = take batchSize (drop i sheetData)
      in filter (\<lambda>doc. length (doc_text doc) > 0)
           (map (\<lambda>(index, r).
                   \<lparr>doc_id = showNat (i + index), doc_language = ''en'',
                    doc_text = trim (rowText inherited columnsToUse r)\<rparr>)
              (enumerate 0 batch)))"

text \<open>
  The loop \<^verbatim>\<open>for (let i = 0; i < sheetData.length; i += batchSize)\<close> of \<^verbatim>\<open>processSheets\<close>,
  for the columns \<open>columnsToUse\<close> chosen before it. A batch without documents is skipped.
  The loop awaits \<^verbatim>\<open>extractKeyPhrases\<close>: a rejected promise would leave the loop, and \<open>Inl\<close>
  is that exception, on its way to the \<^verbatim>\<open>catch\<close> of the sheet.
\<close>

function processBatches ::
  "AzureLanguageService \<Rightarrow> inheritedText \<Rightarrow> string list \<Rightarrow> row list \<Rightarrow> nat \<Rightarrow> string list \<Rightarrow>
     exception + string list"
where
  "processBatches svc inherited columnsToUse sheetData i allKeyPhrases =
     (if i < length sheetData then
        (let documents = batchDocuments inherited columnsToUse sheetData i
         in if length documents = 0
            then processBatches svc inherited columnsToUse sheetData (i + batchSize) allKeyPhrases
            else (case extractKeyPhrases svc (Documents documents) of
                    Inl thrown \<Rightarrow> Inl thrown
                  | Inr batchKeyPhrases \<Rightarrow>
                      processBatches svc inherited columnsToUse sheetData (i + batchSize)
                        (allKeyPhrases @ batchKeyPhrases)))
      else Inr allKeyPhrases)"
  by pat_completeness auto
termination
  by (relation "measure (\<lambda>(svc, inherited, columnsToUse, sheetData, i, allKeyPhrases). length sheetData - i)")
     (auto simp: batchSize_def)

subsection \<open>The batches, stated on lists\<close>

text \<open>The key phrases of one result: those of a result that has key phrases and no error.\<close>

definition successPhrases :: "analyzeResult \<Rightarrow> string list" where
  "successPhrases result =
     (case (result_error result, result_keyPhrases result) of (None, Some phrases) \<Rightarrow> phrases | _ \<Rightarrow> [])"

text \<open>The first rows of the batches of a sheet of \<open>n\<close> rows, from row \<open>i\<close> on.\<close>

function batchStarts :: "nat \<Rightarrow> nat \<Rightarrow> nat list" where
  "batchStarts n i = (if i < n then i # batchStarts n (i + batchSize) else [])"
  by pat_completeness auto
termination
  by (relation "measure (\<lambda>(n, i). n - i)") (auto simp: batchSize_def)

text \<open>What the batch that starts at row \<open>i\<close> adds to the key phrases of the sheet.\<close>

definition batchKeyPhrasesOf ::
  "AzureLanguageService \<Rightarrow> inheritedText \<Rightarrow> string list \<Rightarrow> row list \<Rightarrow> nat \<Rightarrow> string list" where
  "batchKeyPhrasesOf svc inherited columnsToUse sheetData i =
     (let documents = batchDocuments inherited columnsToUse sheetData i
      in if documents = [] then []
         else (case extractKeyPhrases svc (Documents documents) of
                 Inr phrases \<Rightarrow> phrases
               | Inl thrown \<Rightarrow> []))"

section \<open>Example data\<close>

definition exampleData :: documentData where
  "exampleData = [(''Sheet1'', [[(''city'', Str ''Paris''), (''note'', Str ''nice weather'')]])]"

definition parisRow :: row where
  "parisRow = [(''city'', Str ''Paris'')]"

definition twentyFiveRows :: documentData where
  "twentyFiveRows = [(''North'', replicate 13 parisRow), (''South'', replicate 12 parisRow)]"


text \<open>Two words with a tab between them, as two cells copied from a sheet are pasted.\<close>

definition tabQuery :: string where
  "tabQuery = ''sales'' @ [CHR 0x09] @ ''report''"

definition salesData :: documentData where
  "salesData = [(''Q1'', [[(''region'', Str ''north'')], [(''doc'', Str ''sales report'')]])]"

definition tabData :: documentData where
  "tabData = [(''Q1'', [[(''region'', Str ''north'')], [(tabQuery, Num ''5'')]])]"

definition weatherRow :: row where
  "weatherRow = [(''Weather'', Str ''sunny'')]"

text \<open>
  A client that throws on the first batch of a sheet and, on any other batch, returns an
  error for one document and key phrases for another.
\<close>

definition flakyService :: AzureLanguageService where
  "flakyService =
     \<lparr>hasCredentials = True,
      analyze = (\<lambda>docs. if map doc_id docs = map showNat [0..<10]
                        then Inl (Exception ''service unavailable'')
                        else Inr [\<lparr>result_error = Some ''invalid document'', result_keyPhrases = None\<rparr>,
                                  \<lparr>result_error = None, result_keyPhrases = Some [''late delivery'']\<rparr>])\<rparr>"

definition noteRows :: "row list" where
  "noteRows = replicate 12 [(''note'', Str ''Great Service again'')]"

text \<open>A service without credentials.\<close>

definition offlineService :: AzureLanguageService where
  "offlineService = \<lparr>hasCredentials = False, analyze = (\<lambda>docs. Inl (Exception ''no client''))\<rparr>"

definition twelveNames :: string where
  "twelveNames = ''we met Alice Bobby Carol David Edgar Fiona Grace Harry Irene Jacob Kevin Laura and Alice''"

section \<open>The loops of the selector\<close>

lemma scanRows_eq: "scanRows kws sheetName rows i rc = rc @ sheetMatches kws sheetName rows i"
  by (induction rows arbitrary: i rc) (simp_all add: sheetMatches_def)

lemma scanSheets_eq: "scanSheets kws documentData rc = rc @ allMatches kws documentData"
  by (induction documentData arbitrary: rc) (auto simp: allMatches_def scanRows_eq)

lemma sampleSheets_eq: "sampleSheets documentData rc = rc @ sampleFallback documentData"
  by (induction documentData arbitrary: rc) (auto simp: sampleFallback_def split: list.splits)

lemma length_sampleFallback: "length (sampleFallback documentData) = length (nonEmptySheets documentData)"
  by (induction documentData) (auto simp: sampleFallback_def nonEmptySheets_def split: list.splits)

lemma findRelevantContent_eq:
  "fst (findRelevantContent query documentData con) =
     (let ms = allMatches (keywordsOf query) documentData
      in if length ms > 20 then take 20 ms
         else if ms = [] then sampleFallback documentData
         else ms)"
  by (simp add: findRelevantContent_def Let_def scanSheets_eq sampleSheets_eq)

lemma sheetMatches_Nil_iff:
  "sheetMatches kws sheetName rows i = [] \<longleftrightarrow> (\<forall>r \<in> set rows. rowMatches kws r = [])"
  by (induction rows arbitrary: i) (simp_all add: sheetMatches_def)

lemma allMatches_Nil_iff:
  "allMatches kws documentData = [] \<longleftrightarrow>
     (\<forall>(sheetName, rows) \<in> set documentData. \<forall>r \<in> set rows. rowMatches kws r = [])"
  by (induction documentData) (auto simp: allMatches_def sheetMatches_Nil_iff)


lemma sampleFallback_Nil_iff:
  "sampleFallback documentData = [] \<longleftrightarrow> (\<forall>(sheetName, rows) \<in> set documentData. rows = [])"
  by (induction documentData) (auto simp: sampleFallback_def split: list.splits)

lemma allMatches_empty_sheets:
  "(\<forall>(sheetName, rows) \<in> set documentData. rows = []) \<Longrightarrow> allMatches kws documentData = []"
  by (auto simp: allMatches_Nil_iff)

section \<open>Characters and splitting\<close>

lemma isWhitespace_space: "isWhitespace (CHR '' '')"
  by (simp add: isWhitespace_def)

lemma splitRuns_dropWhile:
  "\<not> P [] \<Longrightarrow> filter P (splitRuns [] (dropWhile isWhitespace s)) = filter P (splitRuns [] s)"
  by (cases s) simp_all

lemma split_space_runs:
  "\<forall>c \<in> set s. isWhitespace c \<longrightarrow> c = CHR '' '' \<Longrightarrow> \<not> P [] \<Longrightarrow>
     filter P (splitAt (CHR '' '') cur s) = filter P (splitRuns cur s)"
proof (induction s arbitrary: cur)
  case Nil
  then show ?case by simp
next
  case (Cons c cs)
  show ?case
  proof (cases "c = CHR '' ''")
    case True
    have "filter P (splitAt (CHR '' '') [] cs) = filter P (splitRuns [] cs)"
      using Cons by simp
    then show ?thesis
      using True Cons.prems(2) by (simp add: isWhitespace_space splitRuns_dropWhile)
  next
    case False
    then have "\<not> isWhitespace c" using Cons.prems(1) by auto
    then show ?thesis using False Cons by simp
  qed
qed

lemma upperLetters_ascii: "c \<in> set upperLetters \<Longrightarrow> (of_char c :: nat) < 128"
  by (auto simp: upperLetters_def)

lemma lowerLetters_ascii: "c \<in> set lowerLetters \<Longrightarrow> (of_char c :: nat) < 128"
  by (auto simp: lowerLetters_def)

lemma decimalDigits_ascii: "c \<in> set decimalDigits \<Longrightarrow> (of_char c :: nat) < 128"
  by (auto simp: decimalDigits_def)

lemma isWordChar_ascii: "isWordChar c \<Longrightarrow> (of_char c :: nat) < 128"
  unfolding isWordChar_def
  using upperLetters_ascii lowerLetters_ascii decimalDigits_ascii by auto

lemma isWhitespace_below: "isWhitespace c \<Longrightarrow> (of_char c :: nat) \<le> 160"
  by (auto simp: isWhitespace_def)

lemma isLatinUpper_above: "isLatinUpper c \<Longrightarrow> 192 \<le> (of_char c :: nat)"
  by (simp add: isLatinUpper_def)

lemma isLatinUpper_not_letter: "isLatinUpper c \<Longrightarrow> c \<notin> set upperLetters"
  using upperLetters_ascii [of c] isLatinUpper_above [of c] by auto

lemma map_of_upperLetters_None:
  "c \<notin> set upperLetters \<Longrightarrow> map_of (zip upperLetters lowerLetters) c = None"
proof -
  assume "c \<notin> set upperLetters"
  moreover have "length upperLetters = length lowerLetters"
    by (simp add: upperLetters_def lowerLetters_def)
  ultimately show ?thesis
    by (simp add: map_of_zip_is_None)
qed

lemma toLowerCaseChar_other:
  "c \<notin> set upperLetters \<Longrightarrow> \<not> isLatinUpper c \<Longrightarrow> toLowerCaseChar c = c"
  by (simp add: toLowerCaseChar_def map_of_upperLetters_None)

lemma toLowerCaseChar_upper: "c \<in> set upperLetters \<Longrightarrow> toLowerCaseChar c \<in> set lowerLetters"
proof -
  assume "c \<in> set upperLetters"
  moreover have "length upperLetters = length lowerLetters"
    by (simp add: upperLetters_def lowerLetters_def)
  ultimately obtain l where l: "map_of (zip upperLetters lowerLetters) c = Some l"
    using map_of_zip_is_Some by fastforce
  then have "l \<in> set lowerLetters"
    by (meson map_of_SomeD set_zip_rightD)
  with l show ?thesis by (simp add: toLowerCaseChar_def)
qed

lemma toLowerCaseChar_latin:
  assumes "isLatinUpper c"
  shows "(of_char (toLowerCaseChar c) :: nat) = of_char c + 32"
proof -
  from assms have "toLowerCaseChar c = char_of ((of_char c :: nat) + 32)"
    by (simp add: toLowerCaseChar_def map_of_upperLetters_None isLatinUpper_not_letter)
  moreover from assms have "(of_char c :: nat) + 32 < 256"
    by (simp add: isLatinUpper_def)
  ultimately show ?thesis by simp
qed

lemma toLowerCaseChar_latin_fixed:
  assumes "isLatinUpper c"
  shows "toLowerCaseChar c \<notin> set upperLetters \<and> \<not> isLatinUpper (toLowerCaseChar c) \<and>
         \<not> isWhitespace (toLowerCaseChar c) \<and> \<not> isWordChar (toLowerCaseChar c)"
proof -
  have "224 \<le> (of_char (toLowerCaseChar c) :: nat)"
    using toLowerCaseChar_latin [OF assms] isLatinUpper_above [OF assms] by simp
  then show ?thesis
    using upperLetters_ascii [of "toLowerCaseChar c"] isWhitespace_below [of "toLowerCaseChar c"]
      isWordChar_ascii [of "toLowerCaseChar c"]
    by (auto simp: isLatinUpper_def)
qed

lemma isLatinUpper_plain: "isLatinUpper c \<Longrightarrow> \<not> isWhitespace c \<and> \<not> isWordChar c"
  using isLatinUpper_above [of c] isWhitespace_below [of c] isWordChar_ascii [of c] by auto

lemma upperLetters_not_whitespace: "c \<in> set upperLetters \<Longrightarrow> \<not> isWhitespace c"
  by (auto simp: upperLetters_def isWhitespace_def)

lemma lowerLetters_not_whitespace: "c \<in> set lowerLetters \<Longrightarrow> \<not> isWhitespace c"
  by (auto simp: lowerLetters_def isWhitespace_def)

lemma isWhitespace_toLowerCaseChar: "isWhitespace (toLowerCaseChar c) \<longleftrightarrow> isWhitespace c"
proof (cases "c \<in> set upperLetters")
  case True
  then show ?thesis
    using toLowerCaseChar_upper upperLetters_not_whitespace lowerLetters_not_whitespace by blast
next
  case False
  show ?thesis
  proof (cases "isLatinUpper c")
    case True
    then show ?thesis
      using toLowerCaseChar_latin_fixed isLatinUpper_plain by blast
  next
    case no: False
    with False show ?thesis by (simp add: toLowerCaseChar_other)
  qed
qed

lemma isWordChar_toLowerCaseChar: "isWordChar (toLowerCaseChar c) \<longleftrightarrow> isWordChar c"
proof (cases "c \<in> set upperLetters")
  case True
  then show ?thesis
    using toLowerCaseChar_upper [of c] by (simp add: isWordChar_def)
next
  case False
  show ?thesis
  proof (cases "isLatinUpper c")
    case True
    then show ?thesis
      using toLowerCaseChar_latin_fixed isLatinUpper_plain by blast
  next
    case no: False
    with False show ?thesis by (simp add: toLowerCaseChar_other)
  qed
qed

lemma whitespace_toLowerCaseChar_same: "isWhitespace (toLowerCaseChar c) \<Longrightarrow> toLowerCaseChar c = c"
  using isWhitespace_toLowerCaseChar toLowerCaseChar_other upperLetters_not_whitespace
    isLatinUpper_plain by blast

lemma whitespace_replaceNonWord:
  assumes "c \<in> set (replaceNonWord (toLowerCase q))" and "isWhitespace c"
  shows "c = CHR '' '' \<or> c \<in> set q"
proof -
  from assms(1) obtain x where x: "x \<in> set q"
    and c: "c = (if isWordChar (toLowerCaseChar x) \<or> isWhitespace (toLowerCaseChar x)
                 then toLowerCaseChar x else CHR '' '')"
    by (auto simp: replaceNonWord_def toLowerCase_def)
  show ?thesis
  proof (cases "c = CHR '' ''")
    case True
    then show ?thesis by simp
  next
    case False
    with c have "c = toLowerCaseChar x" by (simp split: if_splits)
    with assms(2) have "c = x" using whitespace_toLowerCaseChar_same by simp
    with x show ?thesis by simp
  qed
qed

lemma keywords_agree_on_spaces:
  assumes "\<forall>c \<in> set query. isWhitespace c \<longrightarrow> c = CHR '' ''"
  shows "keywordsOf query = keywordsPerSpec query"
proof -
  have "\<forall>c \<in> set (replaceNonWord (toLowerCase query)). isWhitespace c \<longrightarrow> c = CHR '' ''"
    using assms whitespace_replaceNonWord by blast
  then show ?thesis
    unfolding keywordsOf_def keywordsPerSpec_def splitChar_def splitWhitespace_def
    by (rule split_space_runs) simp
qed

section \<open>Sets in insertion order and the phrase loops\<close>

lemma set_setAdd: "set (setAdd s x) = insert x (set s)"
  by (auto simp: setAdd_def)

lemma distinct_setAdd: "distinct s \<Longrightarrow> distinct (setAdd s x)"
  by (simp add: setAdd_def)

lemma set_fold_setAdd: "set (fold (\<lambda>x s. setAdd s x) xs s) = set s \<union> set xs"
  by (induction xs arbitrary: s) (auto simp: set_setAdd)

lemma distinct_fold_setAdd: "distinct s \<Longrightarrow> distinct (fold (\<lambda>x s. setAdd s x) xs s)"
  by (induction xs arbitrary: s) (simp_all add: distinct_setAdd)

lemma set_arrayFromSet: "set (arrayFromSet xs) = set xs"
  by (simp add: arrayFromSet_def set_fold_setAdd)

lemma distinct_arrayFromSet: "distinct (arrayFromSet xs)"
  by (simp add: arrayFromSet_def distinct_fold_setAdd)

lemma twoWordPhrases_eq:
  "twoWordPhrases tokens i phrases =
     phrases @ map (\<lambda>j. tokens ! j @ '' '' @ tokens ! (j + 1)) [i..<length tokens - 1]"
proof (induction tokens i phrases rule: twoWordPhrases.induct)
  case (1 tokens i phrases)
  show ?case
  proof (cases "int i < int (length tokens) - 1")
    case True
    then have "i < length tokens - 1" by linarith
    then have "[i..<length tokens - 1] = i # [i + 1..<length tokens - 1]"
      by (simp add: upt_conv_Cons)
    with True 1 show ?thesis by simp
  next
    case False
    then have "\<not> i < length tokens - 1" by linarith
    with False show ?thesis by simp
  qed
qed

lemma threeWordPhrases_eq:
  "threeWordPhrases tokens i phrases =
     phrases @ map (\<lambda>j. tokens ! j @ '' '' @ tokens ! (j + 1) @ '' '' @ tokens ! (j + 2))
       [i..<length tokens - 2]"
proof (induction tokens i phrases rule: threeWordPhrases.induct)
  case (1 tokens i phrases)
  show ?case
  proof (cases "int i < int (length tokens) - 2")
    case True
    then have "i < length tokens - 2" by linarith
    then have "[i..<length tokens - 2] = i # [i + 1..<length tokens - 2]"
      by (simp add: upt_conv_Cons)
    with True 1 show ?thesis by simp
  next
    case False
    then have "\<not> i < length tokens - 2" by linarith
    with False show ?thesis by simp
  qed
qed

lemma set_pairs:
  "set (map g [0..<n - 1]) = {g i |i. i + 1 < n}"
  by (auto simp: less_diff_conv)

lemma set_triples:
  "set (map g [0..<n - 2]) = {g i |i. i + 2 < n}"
  by (auto simp: less_diff_conv)

lemma extractKeywords_phrases:
  "set (extractKeywords query) =
     set (searchTokens query) \<union>
     set (map (\<lambda>j. searchTokens query ! j @ '' '' @ searchTokens query ! (j + 1))
       [0..<length (searchTokens query) - 1]) \<union>
     set (map (\<lambda>j. searchTokens query ! j @ '' '' @ searchTokens query ! (j + 1) @ '' '' @
         searchTokens query ! (j + 2))
       [0..<length (searchTokens query) - 2])"
  unfolding extractKeywords_def Let_def set_arrayFromSet twoWordPhrases_eq threeWordPhrases_eq
  by (simp only: set_append append_Nil)

lemma extractKeywords_distinct: "distinct (extractKeywords query)"
  by (simp add: extractKeywords_def Let_def distinct_arrayFromSet)

lemma extractKeywords_set:
  "set (extractKeywords query) =
     set (searchTokens query) \<union>
     {searchTokens query ! i @ '' '' @ searchTokens query ! (i + 1) |i.
        i + 1 < length (searchTokens query)} \<union>
     {searchTokens query ! i @ '' '' @ searchTokens query ! (i + 1) @ '' '' @
        searchTokens query ! (i + 2) |i. i + 2 < length (searchTokens query)}"
  unfolding extractKeywords_phrases set_pairs set_triples ..

section \<open>Keywords and the JSON text of a row\<close>

lemma splitAt_chars:
  "t \<in> set (splitAt sep cur s) \<Longrightarrow> set t \<subseteq> set cur \<union> (set s - {sep})"
proof (induction s arbitrary: cur)
  case Nil
  then show ?case by simp
next
  case (Cons c cs)
  show ?case
  proof (cases "c = sep")
    case True
    with Cons.prems have "t = cur \<or> t \<in> set (splitAt sep [] cs)" by simp
    then show ?thesis
      using Cons.IH [of "[]"] by auto
  next
    case False
    with Cons.prems have "t \<in> set (splitAt sep (cur @ [c]) cs)" by simp
    then show ?thesis
      using Cons.IH [of "cur @ [c]"] False by auto
  qed
qed

lemma replaceNonWord_chars:
  "c \<in> set (replaceNonWord s) \<Longrightarrow> isWordChar c \<or> isWhitespace c"
  by (auto simp: replaceNonWord_def isWhitespace_space split: if_splits)

lemma keywordsOf_chars:
  assumes "k \<in> set (keywordsOf query)" and "c \<in> set k"
  shows "(isWordChar c \<or> isWhitespace c) \<and> c \<noteq> CHR '' '' \<and>
         c \<in> set (replaceNonWord (toLowerCase query))"
proof -
  from assms(1) have "k \<in> set (splitAt (CHR '' '') [] (replaceNonWord (toLowerCase query)))"
    by (simp add: keywordsOf_def splitChar_def)
  from splitAt_chars [OF this] assms(2)
  have "c \<in> set (replaceNonWord (toLowerCase query)) - {CHR '' ''}" by auto
  then show ?thesis using replaceNonWord_chars by auto
qed

lemma includesStr_sublist: "includesStr s k \<longleftrightarrow> sublist k s"
  by (induction s) (simp_all add: sublist_Cons_right)

lemma sublist_map_lift:
  assumes "sublist k (map f c)"
  shows "\<exists>k'. sublist k' c \<and> map f k' = k"
proof -
  from assms obtain ps ss where "map f c = ps @ (k @ ss)"
    by (auto simp: sublist_def)
  then obtain ps' r where c: "c = ps' @ r" and r: "k @ ss = map f r"
    unfolding map_eq_append_conv by blast
  from r obtain k' ss' where "r = k' @ ss'" and "k = map f k'"
    unfolding append_eq_map_conv by blast
  with c show ?thesis by (auto simp: sublist_def)
qed

lemma sublist_concat_map:
  assumes "sublist k c"
  shows "sublist (concat (map g k)) (concat (map g c))"
proof -
  from assms obtain ps ss where "c = ps @ k @ ss"
    by (auto simp: sublist_def)
  then show ?thesis by simp
qed

lemma concat_escape_plain:
  "\<forall>c \<in> set s. escapeChar c = [c] \<Longrightarrow> concat (map escapeChar s) = s"
  by (induction s) simp_all

lemma sublist_join: "x \<in> set xs \<Longrightarrow> sublist x (join sep xs)"
proof (induction sep xs rule: join.induct)
  case (3 sep a b ys)
  show ?case
  proof (cases "x = a")
    case True
    then show ?thesis by simp
  next
    case False
    with 3 have "sublist x (join sep (b # ys))" by simp
    then show ?thesis
      by (metis join.simps(3) sublist_order.order.trans sublist_append_leftI append_assoc)
  qed
qed simp_all

lemma sublist_trans': "sublist a b \<Longrightarrow> sublist b c \<Longrightarrow> sublist a c"
  by (rule sublist_order.order.trans)

lemma column_in_JSON:
  assumes "(column, v) \<in> set r"
  shows "sublist (concat (map escapeChar column)) (JSON_stringify r)"
proof -
  let ?f = "\<lambda>(key, value). quoteJSON key @ '':'' @ cellToJSON value"
  have "sublist (concat (map escapeChar column)) (quoteJSON column)"
    unfolding quoteJSON_def by (rule sublist_appendI)
  moreover have "sublist (quoteJSON column) (?f (column, v))"
    by simp
  moreover have "sublist (?f (column, v)) (join '','' (map ?f r))"
    using assms by (intro sublist_join) force
  moreover have "sublist (join '','' (map ?f r)) (JSON_stringify r)"
    unfolding JSON_stringify_def by (rule sublist_appendI)
  ultimately show ?thesis
    by (meson sublist_trans')
qed

lemma escapeChar_plain:
  "c \<noteq> dquote \<Longrightarrow> c \<noteq> backslash \<Longrightarrow> 32 \<le> (of_char c :: nat) \<Longrightarrow> escapeChar c = [c]"
  by (auto simp: escapeChar_def)

lemma upperLetters_printable:
  "c \<in> set upperLetters \<Longrightarrow> c \<noteq> dquote \<and> c \<noteq> backslash \<and> 32 \<le> (of_char c :: nat)"
  by (auto simp: upperLetters_def dquote_def backslash_def)

lemma lowerLetters_printable:
  "c \<in> set lowerLetters \<Longrightarrow> c \<noteq> dquote \<and> c \<noteq> backslash \<and> 32 \<le> (of_char c :: nat)"
  by (auto simp: lowerLetters_def dquote_def backslash_def)

lemma decimalDigits_printable:
  "c \<in> set decimalDigits \<Longrightarrow> c \<noteq> dquote \<and> c \<noteq> backslash \<and> 32 \<le> (of_char c :: nat)"
  by (auto simp: decimalDigits_def dquote_def backslash_def)

lemma isWordChar_plain: "isWordChar c \<Longrightarrow> escapeChar c = [c]"
proof -
  assume "isWordChar c"
  then have "c \<noteq> dquote \<and> c \<noteq> backslash \<and> 32 \<le> (of_char c :: nat)"
    unfolding isWordChar_def
    using upperLetters_printable lowerLetters_printable decimalDigits_printable
    by (auto simp: dquote_def backslash_def)
  then show ?thesis by (simp add: escapeChar_plain)
qed

lemma lowerLetters_not_upper: "c \<in> set lowerLetters \<Longrightarrow> c \<notin> set upperLetters"
  by (auto simp: lowerLetters_def upperLetters_def)

lemma toLowerCaseChar_idem: "toLowerCaseChar (toLowerCaseChar c) = toLowerCaseChar c"
proof (cases "c \<in> set upperLetters")
  case True
  then have l: "toLowerCaseChar c \<in> set lowerLetters"
    by (rule toLowerCaseChar_upper)
  then have "toLowerCaseChar c \<notin> set upperLetters"
    by (rule lowerLetters_not_upper)
  moreover have "\<not> isLatinUpper (toLowerCaseChar c)"
    using lowerLetters_ascii [OF l] by (simp add: isLatinUpper_def)
  ultimately show ?thesis by (rule toLowerCaseChar_other)
next
  case False
  show ?thesis
  proof (cases "isLatinUpper c")
    case True
    then show ?thesis
      using toLowerCaseChar_latin_fixed toLowerCaseChar_other by blast
  next
    case no: False
    with False show ?thesis by (simp add: toLowerCaseChar_other)
  qed
qed

lemma replaceNonWord_lower:
  assumes "c \<in> set (replaceNonWord (toLowerCase q))"
  shows "toLowerCaseChar c = c"
proof -
  from assms have "c = CHR '' '' \<or> (\<exists>x. c = toLowerCaseChar x)"
    by (auto simp: replaceNonWord_def toLowerCase_def split: if_splits)
  moreover have "toLowerCaseChar (CHR '' '') = CHR '' ''"
    by (simp add: toLowerCaseChar_other upperLetters_def isLatinUpper_def)
  ultimately show ?thesis
    by (auto simp: toLowerCaseChar_idem)
qed

lemma keywordsOf_lower: "k \<in> set (keywordsOf query) \<Longrightarrow> toLowerCase k = k"
  unfolding toLowerCase_def
  by (rule map_idI) (use keywordsOf_chars replaceNonWord_lower in blast)

lemma keywordsOf_no_space: "k \<in> set (keywordsOf query) \<Longrightarrow> CHR '' '' \<notin> set k"
  using keywordsOf_chars by blast

lemma rowMatches_nonempty_iff:
  "rowMatches kws r \<noteq> [] \<longleftrightarrow> (\<exists>k \<in> set kws. includesStr (toLowerCase (JSON_stringify r)) k)"
  by (auto simp: rowMatches_def filter_empty_conv)

lemma allMatches_member:
  assumes "(sheetName, rows) \<in> set documentData" and "i < length rows"
    and "rowMatches kws (rows ! i) \<noteq> []"
  shows "fromSnippet sheetName i (rows ! i) \<in> set (allMatches kws documentData)"
proof -
  have "(i, rows ! i) \<in> set (enumerate 0 rows)"
    using assms(2) by (simp add: in_set_enumerate_eq)
  then have "fromSnippet sheetName i (rows ! i) \<in> set (sheetMatches kws sheetName rows 0)"
    using assms(3) by (force simp: sheetMatches_def)
  then show ?thesis
    using assms(1) by (force simp: allMatches_def)
qed

lemma keyword_in_column:
  assumes k: "k \<in> set (keywordsOf query)"
    and nows: "\<forall>ch \<in> set k. \<not> isWhitespace ch"
    and col: "(column, v) \<in> set r"
    and inc: "includesStr (toLowerCase column) k"
  shows "includesStr (toLowerCase (JSON_stringify r)) k"
proof -
  from inc have "sublist k (map toLowerCaseChar column)"
    by (simp add: includesStr_sublist toLowerCase_def)
  then obtain k' where k': "sublist k' column" and low: "map toLowerCaseChar k' = k"
    using sublist_map_lift by blast
  have "escapeChar ch = [ch]" if "ch \<in> set k'" for ch
  proof -
    from that low have "toLowerCaseChar ch \<in> set k" by auto
    with k nows have "isWordChar (toLowerCaseChar ch)"
      using keywordsOf_chars by blast
    then show ?thesis
      by (simp add: isWordChar_toLowerCaseChar isWordChar_plain)
  qed
  then have "concat (map escapeChar k') = k'"
    by (simp add: concat_escape_plain)
  with sublist_concat_map [OF k', of escapeChar]
  have "sublist k' (concat (map escapeChar column))" by simp
  then have "sublist k' (JSON_stringify r)"
    using column_in_JSON [OF col] by (rule sublist_trans')
  then have "sublist (map toLowerCaseChar k') (map toLowerCaseChar (JSON_stringify r))"
    by (rule map_mono_sublist)
  with low show ?thesis
    by (simp add: includesStr_sublist toLowerCase_def)
qed

lemma keyword_in_column_lower:
  assumes "k \<in> set (keywordsOf query)" and "includesStr column k"
  shows "includesStr (toLowerCase column) k"
proof -
  from assms(2) have "sublist (map toLowerCaseChar k) (map toLowerCaseChar column)"
    by (simp add: includesStr_sublist map_mono_sublist)
  with keywordsOf_lower [OF assms(1)] show ?thesis
    by (simp add: includesStr_sublist toLowerCase_def)
qed

section \<open>The mock key phrases\<close>

lemma distinct_fold:
  assumes "\<And>x s. distinct s \<Longrightarrow> distinct (f x s)" and "distinct s"
  shows "distinct (fold f xs s)"
  using assms(2)
proof (induction xs arbitrary: s)
  case Nil
  then show ?case by simp
next
  case (Cons x xs)
  from Cons.prems have "distinct (f x s)" by (rule assms(1))
  then have "distinct (fold f xs (f x s))" by (rule Cons.IH)
  then show ?case by simp
qed

lemma distinct_markWord: "distinct s \<Longrightarrow> distinct (markWord words iw s)"
  by (cases iw) (simp add: markWord_def Let_def distinct_setAdd)

lemma distinct_markLongWord: "distinct s \<Longrightarrow> distinct (markLongWord w s)"
  by (simp add: markLongWord_def Let_def distinct_setAdd)

lemma distinct_getMockKeyPhrases: "distinct (getMockKeyPhrases text)"
proof -
  let ?words = "splitWhitespace text"
  have a: "distinct (fold (markWord ?words) (enumerate 0 ?words) [])"
    by (rule distinct_fold) (simp_all add: distinct_markWord)
  have b: "distinct (fold markLongWord ?words s)" if "distinct s" for s
    by (rule distinct_fold) (simp_all add: distinct_markLongWord that)
  show ?thesis
    by (simp add: getMockKeyPhrases_def Let_def a b)
qed

lemma length_getMockKeyPhrases: "length (getMockKeyPhrases text) \<le> 10"
  by (simp add: getMockKeyPhrases_def Let_def)

section \<open>The service and the batch loop\<close>

lemma extractKeyPhrases_offline:
  "\<not> hasCredentials svc \<Longrightarrow> extractKeyPhrases svc input = Inr (getMockKeyPhrases (inputText input))"
  by (simp add: extractKeyPhrases_def extractKeyPhrasesTry_def)

lemma extractKeyPhrases_returns: "\<exists>phrases. extractKeyPhrases svc input = Inr phrases"
  by (simp add: extractKeyPhrases_def split: sum.splits)

lemma collectKeyPhrases_eq:
  "collectKeyPhrases results phrases = phrases @ concat (map successPhrases results)"
  by (induction results arbitrary: phrases)
     (auto simp: successPhrases_def split: option.splits)

lemma extractKeyPhrases_results:
  assumes "hasCredentials svc" and "validDocumentsOf docs \<noteq> []"
    and "analyze svc (validDocumentsOf docs) = Inr results"
  shows "extractKeyPhrases svc (Documents docs) = Inr (concat (map successPhrases results))"
  using assms
  by (simp add: extractKeyPhrases_def extractKeyPhrasesTry_def Let_def collectKeyPhrases_eq)

lemma processBatches_eq:
  "processBatches svc inherited columnsToUse sheetData i allKeyPhrases =
     Inr (allKeyPhrases @
          concat (map (batchKeyPhrasesOf svc inherited columnsToUse sheetData)
                    (batchStarts (length sheetData) i)))"
proof (induction svc inherited columnsToUse sheetData i allKeyPhrases rule: processBatches.induct)
  case (1 svc inherited columnsToUse sheetData i allKeyPhrases)
  show ?case
  proof (cases "i < length sheetData")
    case False
    then show ?thesis by simp
  next
    case inside: True
    let ?documents = "batchDocuments inherited columnsToUse sheetData i"
    have starts: "batchStarts (length sheetData) i = i # batchStarts (length sheetData) (i + batchSize)"
      using inside by simp
    show ?thesis
    proof (cases "?documents = []")
      case True
      then have "batchKeyPhrasesOf svc inherited columnsToUse sheetData i = []"
        by (simp add: batchKeyPhrasesOf_def)
      moreover have "processBatches svc inherited columnsToUse sheetData i allKeyPhrases =
          processBatches svc inherited columnsToUse sheetData (i + batchSize) allKeyPhrases"
        using inside True by (subst processBatches.simps) simp
      moreover have "processBatches svc inherited columnsToUse sheetData (i + batchSize) allKeyPhrases =
          Inr (allKeyPhrases @
               concat (map (batchKeyPhrasesOf svc inherited columnsToUse sheetData)
                         (batchStarts (length sheetData) (i + batchSize))))"
        using "1.IH"(1) [OF inside refl] True by simp
      ultimately show ?thesis
        by (simp only: starts list.map concat.simps append_Nil)
    next
      case False
      obtain phrases where p: "extractKeyPhrases svc (Documents ?documents) = Inr phrases"
        using extractKeyPhrases_returns by blast
      then have "batchKeyPhrasesOf svc inherited columnsToUse sheetData i = phrases"
        using False by (simp add: batchKeyPhrasesOf_def)
      moreover have "processBatches svc inherited columnsToUse sheetData i allKeyPhrases =
          processBatches svc inherited columnsToUse sheetData (i + batchSize) (allKeyPhrases @ phrases)"
        using inside False p by (subst processBatches.simps) simp
      moreover have "processBatches svc inherited columnsToUse sheetData (i + batchSize) (allKeyPhrases @ phrases) =
          Inr ((allKeyPhrases @ phrases) @
               concat (map (batchKeyPhrasesOf svc inherited columnsToUse sheetData)
                         (batchStarts (length sheetData) (i + batchSize))))"
        using "1.IH"(2) [OF inside refl _ p] False by simp
      ultimately show ?thesis
        by (simp only: starts list.map concat.simps append_assoc)
    qed
  qed
qed

section \<open>Keywords without whitespace\<close>

text \<open>
  On a query whose only whitespace is the space, every keyword is made of word characters
  alone.
\<close>

lemma keywords_single_words_on_spaces:
  assumes "\<forall>c \<in> set query. isWhitespace c \<longrightarrow> c = CHR '' ''"
    and "k \<in> set (keywordsOf query)" and "c \<in> set k"
  shows "isWordChar c"
proof (rule ccontr)
  assume "\<not> isWordChar c"
  with keywordsOf_chars [OF assms(2,3)]
  have w: "isWhitespace c" and n: "c \<noteq> CHR '' ''"
    and m: "c \<in> set (replaceNonWord (toLowerCase query))"
    by auto
  from whitespace_replaceNonWord [OF m w] n have "c \<in> set query" by simp
  with assms(1) w n show False by blast
qed

text \<open>
  Rows are matched against the lower-cased JSON text of the whole row, column names and
  punctuation included. So a keyword without whitespace characters that is a substring
  of a column name of the row, read as it is or in lower case, matches the row whatever
  the cells hold; the snippet of the row is then among the snippets of the matching
  rows, and in the result when these are at most 20.
\<close>

lemma column_name_match:
  assumes "k \<in> set (keywordsOf query)"
    and "\<forall>ch \<in> set k. \<not> isWhitespace ch"
    and "(column, v) \<in> set r"
    and "includesStr column k \<or> includesStr (toLowerCase column) k"
  shows "rowMatches (keywordsOf query) r =
           filter (\<lambda>k. includesStr (toLowerCase (JSON_stringify r)) k) (keywordsOf query) \<and>
         k \<in> set (rowMatches (keywordsOf query) r) \<and>
         ((sheetName, rows) \<in> set documentData \<and> i < length rows \<and> rows ! i = r \<longrightarrow>
            fromSnippet sheetName i r \<in> set (allMatches (keywordsOf query) documentData) \<and>
            (length (allMatches (keywordsOf query) documentData) \<le> 20 \<longrightarrow>
               fromSnippet sheetName i r \<in> set (fst (findRelevantContent query documentData con))))"
proof -
  from assms(1,4) have "includesStr (toLowerCase column) k"
    using keyword_in_column_lower by blast
  with assms have inc: "includesStr (toLowerCase (JSON_stringify r)) k"
    using keyword_in_column by blast
  with assms(1) have m: "k \<in> set (rowMatches (keywordsOf query) r)"
    by (simp add: rowMatches_def)
  then have ne: "rowMatches (keywordsOf query) r \<noteq> []" by auto
  have a: "rowMatches (keywordsOf query) r =
      filter (\<lambda>k. includesStr (toLowerCase (JSON_stringify r)) k) (keywordsOf query)"
    by (simp add: rowMatches_def)
  have b: "fromSnippet sheetName i r \<in> set (allMatches (keywordsOf query) documentData)"
    if "(sheetName, rows) \<in> set documentData" "i < length rows" "rows ! i = r"
    using that ne allMatches_member by blast
  have c: "fromSnippet sheetName i r \<in> set (fst (findRelevantContent query documentData con))"
    if "fromSnippet sheetName i r \<in> set (allMatches (keywordsOf query) documentData)"
      and "length (allMatches (keywordsOf query) documentData) \<le> 20"
    using that by (auto simp: findRelevantContent_eq Let_def)
  from a m b c show ?thesis by blast
qed

lemma column_name_match_example: \<open>
  ''weather'' \<in> set (rowMatches (keywordsOf ''weather'') weatherRow) \<and>
  \<not> includesStr (toLowerCase ''sunny'') ''weather'' \<and>
  ''[From sheet "Sheet1", row 1]: Weather: sunny''
    \<in> set (fst (findRelevantContent ''weather'' [(''Sheet1'', [weatherRow])] []))\<close>
proof -
  have h1: "''weather'' \<in> set (keywordsOf ''weather'')"
    by code_simp
  have h2: "\<forall>ch \<in> set ''weather''. \<not> isWhitespace ch"
    by code_simp
  have h3: "(''Weather'', Str ''sunny'') \<in> set weatherRow"
    by (simp add: weatherRow_def)
  have h4: "includesStr ''Weather'' ''weather'' \<or> includesStr (toLowerCase ''Weather'') ''weather''"
    by code_simp
  have h5: "\<not> includesStr (toLowerCase ''sunny'') ''weather''"
    by code_simp
  have h6: "length (allMatches (keywordsOf ''weather'') [(''Sheet1'', [weatherRow])]) \<le> 20"
    by code_simp
  have s: \<open>fromSnippet ''Sheet1'' 0 weatherRow = ''[From sheet "Sheet1", row 1]: Weather: sunny''\<close>
    by code_simp
  show ?thesis
    using column_name_match [OF h1 h2 h3 h4, of "''Sheet1''" "[weatherRow]"
        "[(''Sheet1'', [weatherRow])]" 0 "[]"] h5 h6 s
    by auto
qed

section \<open>Claims about the relevance selector\<close>

text \<open>
  Claim C1: the keyword list is the lower-cased query, punctuation blanked, split on
  whitespace, without the tokens of length at most 2 and without the stop words.
  The program splits at the space character only. On a query whose only whitespace is
  the space the two agree (lemma \<open>keywords_agree_on_spaces\<close>). On \<open>tabQuery\<close>, two words
  with a tab between them, the program keeps one keyword with the tab inside, where the
  claim has the two words; the keyword matches no row of \<open>salesData\<close>, the two words match
  its second row.
\<close>

theorem keywords_tab_query: \<open>
  keywordsOf tabQuery = [tabQuery] \<and>
  keywordsPerSpec tabQuery = [''sales'', ''report''] \<and>
  allMatches (keywordsOf tabQuery) salesData = [] \<and>
  allMatches (keywordsPerSpec tabQuery) salesData = [''[From sheet "Q1", row 2]: doc: sales report'']\<close>
  by code_simp

text \<open>
  Claim C2, as stated: the result is empty only when the document data is empty. A sheet
  without rows is skipped by both loops, so document data with one empty sheet gives the
  empty result.
\<close>

theorem empty_sheet_counterexample:
  "fst (findRelevantContent ''weather'' [(''Sheet1'', [])] []) = [] \<and>
   [(''Sheet1'', [])] \<noteq> ([] :: documentData)"
  by code_simp

text \<open>
  Claim C2, amended: on empty document data the result is empty, and the result is empty
  exactly when no sheet of the document data has a row.
\<close>

theorem empty_result_iff:
  "fst (findRelevantContent query [] con) = [] \<and>
   (fst (findRelevantContent query documentData con) = [] \<longleftrightarrow>
      (\<forall>(sheetName, rows) \<in> set documentData. rows = []))"
proof -
  have a: "fst (findRelevantContent query [] con) = []"
    by (simp add: findRelevantContent_eq allMatches_def sampleFallback_def)
  have b: "fst (findRelevantContent query documentData con) = [] \<longleftrightarrow>
      (\<forall>(sheetName, rows) \<in> set documentData. rows = [])"
  proof (cases "allMatches (keywordsOf query) documentData = []")
    case True
    then show ?thesis
      by (simp add: findRelevantContent_eq sampleFallback_Nil_iff)
  next
    case False
    then have "\<not> (\<forall>(sheetName, rows) \<in> set documentData. rows = [])"
      using allMatches_empty_sheets by blast
    moreover have "fst (findRelevantContent query documentData con) \<noteq> []"
      using False by (auto simp: findRelevantContent_eq Let_def)
    ultimately show ?thesis by blast
  qed
  from a b show ?thesis by blast
qed

theorem empty_result_iff_witness:
  "fst (findRelevantContent ''weather'' [(''Sheet1'', []), (''Sheet2'', [])] []) = [] \<and>
   fst (findRelevantContent ''weather'' exampleData []) \<noteq> []"
proof -
  have h1: "\<forall>(sheetName, rows) \<in> set [(''Sheet1'', []), (''Sheet2'', [] :: row list)]. rows = []"
    by simp
  have h2: "\<not> (\<forall>(sheetName, rows) \<in> set exampleData. rows = [])"
    by (simp add: exampleData_def)
  show ?thesis
    using empty_result_iff [of "''weather''" "[]" "[(''Sheet1'', []), (''Sheet2'', [])]"]
      empty_result_iff [of "''weather''" "[]" exampleData] h1 h2
    by blast
qed

text \<open>
  Claim C3: when more than 20 rows match, the result is the first 20 of their snippets, in
  sheet order and then row order; so the result has at most \<open>max 20 n\<close> snippets, \<open>n\<close> the
  number of sheets that have a row, and 25 matching rows give exactly the first 20.
\<close>

theorem truncation_first_twenty:
  "(length (allMatches (keywordsOf query) documentData) > 20 \<longrightarrow>
      fst (findRelevantContent query documentData con) =
        take 20 (allMatches (keywordsOf query) documentData) \<and>
      length (fst (findRelevantContent query documentData con)) = 20) \<and>
   length (fst (findRelevantContent query documentData con)) \<le>
     max 20 (length (nonEmptySheets documentData))"
  by (auto simp: findRelevantContent_eq Let_def length_sampleFallback max_def)

theorem truncation_first_twenty_witness:
  "length (allMatches (keywordsOf ''paris'') twentyFiveRows) = 25 \<and>
   fst (findRelevantContent ''paris'' twentyFiveRows []) =
     map (\<lambda>i. fromSnippet ''North'' i parisRow) [0..<13] @
     map (\<lambda>i. fromSnippet ''South'' i parisRow) [0..<7] \<and>
   length (fst (findRelevantContent ''paris'' twentyFiveRows [])) = 20"
proof -
  have n: "length (allMatches (keywordsOf ''paris'') twentyFiveRows) = 25"
    by code_simp
  have t: "take 20 (allMatches (keywordsOf ''paris'') twentyFiveRows) =
     map (\<lambda>i. fromSnippet ''North'' i parisRow) [0..<13] @
     map (\<lambda>i. fromSnippet ''South'' i parisRow) [0..<7]"
    by code_simp
  show ?thesis
    using truncation_first_twenty [of "''paris''" twentyFiveRows "[]"] n t by simp
qed



text \<open>
  Claim C5: the query \<open>weather in Paris\<close> on the one-row example has the keywords \<open>weather\<close>
  and \<open>paris\<close>, matches the row, and returns its snippet alone; the keyword \<open>paris\<close>
  matches the value \<open>Paris\<close>, which the snippet shows as it is in the sheet.
\<close>

theorem example_weather_in_paris: \<open>
  keywordsOf ''weather in Paris'' = [''weather'', ''paris''] \<and>
  allMatches (keywordsOf ''weather in Paris'') exampleData =
    [''[From sheet "Sheet1", row 1]: city: Paris, note: nice weather''] \<and>
  fst (findRelevantContent ''weather in Paris'' exampleData con) =
    [''[From sheet "Sheet1", row 1]: city: Paris, note: nice weather''] \<and>
  toLowerCase (JSON_stringify [(''city'', Str ''Paris''), (''note'', Str ''nice weather'')]) =
    ''{"city":"paris","note":"nice weather"}'' \<and>
  rowMatches [''paris''] [(''city'', Str ''Paris''), (''note'', Str ''nice weather'')] = [''paris'']\<close>
proof -
  have k: "keywordsOf ''weather in Paris'' = [''weather'', ''paris'']"
    by code_simp
  have m: \<open>allMatches [''weather'', ''paris''] exampleData =
      [''[From sheet "Sheet1", row 1]: city: Paris, note: nice weather'']\<close>
    by code_simp
  have j: \<open>toLowerCase (JSON_stringify [(''city'', Str ''Paris''), (''note'', Str ''nice weather'')]) =
      ''{"city":"paris","note":"nice weather"}''\<close>
    by code_simp
  have r: "rowMatches [''paris''] [(''city'', Str ''Paris''), (''note'', Str ''nice weather'')] = [''paris'']"
    by code_simp
  show ?thesis
    using k m j r by (simp add: findRelevantContent_eq)
qed

text \<open>
  Claim C6: the selector is deterministic. What it returns depends on the query and the
  document data alone, not on what the console holds, and it is the matches in sheet
  order and then row order, cut to the first 20, or else the sample.
\<close>

theorem findRelevantContent_deterministic:
  "fst (findRelevantContent query documentData con) =
     fst (findRelevantContent query documentData con') \<and>
   fst (findRelevantContent query documentData con) =
     (let ms = allMatches (keywordsOf query) documentData
      in if length ms > 20 then take 20 ms
         else if ms = [] then sampleFallback documentData
         else ms)"
  by (simp add: findRelevantContent_eq)

text \<open>
  Claim C7: the search-keyword extractor returns, without duplicates, exactly the tokens
  of the query, the phrases of two adjacent tokens and the phrases of three adjacent
  tokens, and the chat selector tests single keywords only, never a phrase of several
  words. The first half holds (lemmas \<open>extractKeywords_distinct\<close> and
  \<open>extractKeywords_set\<close>). The second fails on \<open>tabQuery\<close>: the one keyword of the selector
  is the two words with the tab between them, which the extractor takes apart, and it is
  this string of two words that is looked for in a row, so that a row holding one of the
  words is not matched where the single keywords would match it.
\<close>

theorem tab_keyword_two_words:
  "keywordsOf tabQuery = [''sales'' @ [CHR 0x09] @ ''report''] \<and>
   isWhitespace (CHR 0x09) \<and>
   searchTokens tabQuery = [''sales'', ''report''] \<and>
   extractKeywords tabQuery = [''sales'', ''report'', ''sales report''] \<and>
   rowMatches (keywordsOf tabQuery) [(''doc'', Str ''sales'')] = [] \<and>
   rowMatches (keywordsOf tabQuery) [(''doc'', Str ''report'')] = [] \<and>
   rowMatches (keywordsPerSpec tabQuery) [(''doc'', Str ''sales'')] = [''sales''] \<and>
   rowMatches (keywordsPerSpec tabQuery) [(''doc'', Str ''report'')] = [''report'']"
  by code_simp

text \<open>
  Claim C9: rows are matched against the lower-cased JSON text of the whole row, column
  names and punctuation included, so a row is selected whenever a keyword is a substring
  of one of its column names. For a keyword without whitespace this holds (lemma
  \<open>column_name_match\<close>). It fails on \<open>tabQuery\<close>: the JSON text of a row writes a tab as a
  backslash and \<open>t\<close>, so the keyword with the tab inside does not occur in the text of
  the row whose column name is that very string, and the second row of \<open>tabData\<close> is not
  selected; the keywords split at whitespace select it.
\<close>

theorem tab_column_not_matched: \<open>
  tabQuery \<in> set (keywordsOf tabQuery) \<and>
  includesStr tabQuery tabQuery \<and>
  toLowerCase (JSON_stringify [(tabQuery, Num ''5'')]) = ''{"sales'' @ [backslash] @ ''treport":5}'' \<and>
  rowMatches (keywordsOf tabQuery) [(tabQuery, Num ''5'')] = [] \<and>
  fst (findRelevantContent tabQuery tabData []) = [''[Sample from sheet "Q1"]: region: north''] \<and>
  allMatches (keywordsPerSpec tabQuery) tabData =
    [''[From sheet "Q1", row 2]: sales'' @ [CHR 0x09] @ ''report: 5'']\<close>
  by code_simp

section \<open>Claims about key-phrase extraction\<close>

text \<open>
  Claim C8: an error in the result of one document does not abort the batch: the key
  phrases of the results without error are all returned; \<^verbatim>\<open>extractKeyPhrases\<close> always
  resolves, so an error or exception in one batch does not leave the loop, and every
  batch of the sheet adds its key phrases.
\<close>

theorem batch_failures_do_not_abort:
  "(hasCredentials svc \<and> validDocumentsOf docs \<noteq> [] \<and>
      analyze svc (validDocumentsOf docs) = Inr results \<longrightarrow>
        extractKeyPhrases svc (Documents docs) = Inr (concat (map successPhrases results))) \<and>
   (\<exists>phrases. extractKeyPhrases svc input = Inr phrases) \<and>
   processBatches svc inherited columnsToUse sheetData 0 [] =
     Inr (concat (map (batchKeyPhrasesOf svc inherited columnsToUse sheetData)
                    (batchStarts (length sheetData) 0)))"
  using extractKeyPhrases_results [of svc docs results] extractKeyPhrases_returns [of svc input]
    processBatches_eq [of svc inherited columnsToUse sheetData 0 "[]"]
  by simp

theorem batch_failures_do_not_abort_witness:
  "analyze flakyService (batchDocuments Map.empty [''note''] noteRows 0) = Inl (Exception ''service unavailable'') \<and>
   extractKeyPhrases flakyService (Documents (batchDocuments Map.empty [''note''] noteRows 10)) =
     Inr [''late delivery''] \<and>
   processBatches flakyService Map.empty [''note''] noteRows 0 [] = Inr [''Service'', ''late delivery'']"
proof -
  let ?docs = "batchDocuments Map.empty [''note''] noteRows 10"
  let ?results = "[\<lparr>result_error = Some ''invalid document'', result_keyPhrases = None\<rparr>,
                  \<lparr>result_error = None, result_keyPhrases = Some [''late delivery'']\<rparr>]"
  have h1: "hasCredentials flakyService"
    by (simp add: flakyService_def)
  have h2: "validDocumentsOf ?docs \<noteq> []"
    by code_simp
  have h3: "analyze flakyService (validDocumentsOf ?docs) = Inr ?results"
    by code_simp
  have e: "analyze flakyService (batchDocuments Map.empty [''note''] noteRows 0) = Inl (Exception ''service unavailable'')"
    by code_simp
  have s: "concat (map successPhrases ?results) = [''late delivery'']"
    by code_simp
  have b: "concat (map (batchKeyPhrasesOf flakyService Map.empty [''note''] noteRows)
             (batchStarts (length noteRows) 0)) = [''Service'', ''late delivery'']"
    by code_simp
  show ?thesis
    using batch_failures_do_not_abort [of flakyService ?docs ?results _ Map.empty "[''note'']" noteRows]
      h1 h2 h3 e s b
    by simp
qed

text \<open>
  Claim C10: without credentials \<^verbatim>\<open>extractKeyPhrases\<close> returns the mock key phrases, and
  for every text these are at most 10 and without duplicates.
\<close>

theorem mock_key_phrases:
  "(\<not> hasCredentials svc \<longrightarrow>
      extractKeyPhrases svc input = Inr (getMockKeyPhrases (inputText input))) \<and>
   length (getMockKeyPhrases text) \<le> 10 \<and>
   distinct (getMockKeyPhrases text)"
  using extractKeyPhrases_offline [of svc input]
  by (simp add: length_getMockKeyPhrases distinct_getMockKeyPhrases)

theorem mock_key_phrases_witness:
  "extractKeyPhrases offlineService (Text twelveNames) =
     Inr [''Alice'', ''Bobby'', ''Carol'', ''David'', ''Edgar'', ''Fiona'', ''Grace'', ''Harry'',
          ''Irene'', ''Jacob'']"
proof -
  have h: "\<not> hasCredentials offlineService"
    by (simp add: offlineService_def)
  have m: "getMockKeyPhrases twelveNames =
     [''Alice'', ''Bobby'', ''Carol'', ''David'', ''Edgar'', ''Fiona'', ''Grace'', ''Harry'',
      ''Irene'', ''Jacob'']"
    by code_simp
  show ?thesis
    using mock_key_phrases [of offlineService "Text twelveNames" twelveNames] h m
    by (simp add: inputText_def)
qed

end
